theory Spec2Isabelle
  imports Main
begin

section \<open>Data model of the authentication backend\<close>

text \<open>
  The backend keeps user rows in a relational table (through the Prisma client) and one
  refresh token per user in Redis. The rows are modelled as records, the table as a list of
  rows, Redis as a finite map from keys to entries. Thrown JavaScript errors are values
  (\<open>Inl\<close> of a sum); every operation returns its result together with the state it leaves.

  The Prisma schema is not among the sources; a row has the fields of the frontend's \<open>User\<close>
  interface and the password that the service reads and writes.

  The value \<open>user.id\<close> is written \<open>user_id\<close> (\<open>id\<close> is the identity function of HOL).
  The fields of \<open>RegisterData\<close>, \<open>LoginData\<close> and \<open>JwtPayload\<close> carry the prefixes
  \<open>r_\<close>, \<open>l_\<close> and \<open>p_\<close>, since a user row has fields of the same names.
\<close>

datatype role = CUSTOMER | BARBER | ADMIN

text \<open>The row without its password: \<open>Omit<User, 'password'>\<close>.\<close>

record user_public =
  user_id :: string
  email :: string
  firstName :: string
  lastName :: string
  phone :: "string option"
  role :: role
  emailVerified :: bool
  createdAt :: nat
  updatedAt :: nat

record user = user_public +
  password :: string

record RegisterData =
  r_email :: string
  r_password :: string
  r_firstName :: string
  r_lastName :: string
  r_phone :: "string option"
  r_role :: "role option"

record LoginData =
  l_email :: string
  l_password :: string

record JwtPayload =
  userId :: string
  p_email :: string
  p_role :: string

record token_pair =
  accessToken :: string
  refreshToken :: string

record auth_result =
  user :: user_public
  tokens :: token_pair

text \<open>A JavaScript \<open>Error\<close> object, as far as the code reads it.\<close>

record js_error =
  name :: string
  message :: string

definition Error :: "string \<Rightarrow> js_error" where
  "Error msg = \<lparr>name = ''Error'', message = msg\<rparr>"

text \<open>A Redis entry: the stored string and the \<open>EX\<close> option (seconds to live) it was set with.\<close>

record redis_entry =
  val :: string
  ex :: nat

record state =
  users :: "user list"
  redis_store :: "string \<rightharpoonup> redis_entry"

subsection \<open>The libraries and the configuration\<close>

text \<open>
  bcryptjs and jsonwebtoken are not part of the repository, so they are parameters of the
  model. \<open>bcrypt.hash\<close> draws a random salt and \<open>jwt.sign\<close> and \<open>jwt.verify\<close> read the clock;
  the salt and the clock (in seconds) are explicit arguments here.
  \<^item> \<open>bcrypt_hash L password rounds salt\<close>
  \<^item> \<open>bcrypt_compare L password hash\<close>
  \<^item> \<open>jwt_sign L payload secret expiresIn now\<close>
  \<^item> \<open>jwt_verify L token secret now\<close>: the payload, or the error that is thrown
\<close>

record lib =
  bcrypt_hash :: "string \<Rightarrow> nat \<Rightarrow> string \<Rightarrow> string"
  bcrypt_compare :: "string \<Rightarrow> string \<Rightarrow> bool"
  jwt_sign :: "JwtPayload \<Rightarrow> string \<Rightarrow> nat \<Rightarrow> nat \<Rightarrow> string"
  jwt_verify :: "string \<Rightarrow> string \<Rightarrow> nat \<Rightarrow> js_error + JwtPayload"

text \<open>\<open>config\<close> of \<open>config/env\<close>, and \<open>process.env.NODE_ENV\<close>.\<close>

record config =
  jwtSecret :: string
  jwtRefreshSecret :: string
  nodeEnv :: "string option"

text \<open>What the database fills in when a row is created: the key and the defaulted columns.\<close>

record db_generated =
  gen_id :: string
  gen_emailVerified :: bool
  gen_createdAt :: nat
  gen_updatedAt :: nat

section \<open>The Prisma and Redis calls\<close>

definition findUnique_email :: "user list \<Rightarrow> string \<Rightarrow> user option" where
  "findUnique_email rows e = find (\<lambda>u. email u = e) rows"

definition findUnique_id :: "user list \<Rightarrow> string \<Rightarrow> user option" where
  "findUnique_id rows i = find (\<lambda>u. user_id u = i) rows"

definition role_or_default :: "role option \<Rightarrow> role" where
  "role_or_default r = (case r of None \<Rightarrow> CUSTOMER | Some x \<Rightarrow> x)"

text \<open>
  \<open>prisma.user.create\<close> with \<open>{...data, password: hashedPassword, role: data.role || 'CUSTOMER'}\<close>.
  \<open>findUnique\<close> is only offered on unique columns, so \<open>id\<close> and \<open>email\<close> are unique: a row that
  repeats one is refused with Prisma's known-request error.
\<close>

definition new_row :: "db_generated \<Rightarrow> RegisterData \<Rightarrow> string \<Rightarrow> user" where
  "new_row g data hashedPassword =
     \<lparr>user_id = gen_id g, email = r_email data, firstName = r_firstName data,
      lastName = r_lastName data, phone = r_phone data, role = role_or_default (r_role data),
      emailVerified = gen_emailVerified g, createdAt = gen_createdAt g,
      updatedAt = gen_updatedAt g, password = hashedPassword\<rparr>"

definition prisma_create :: "user list \<Rightarrow> user \<Rightarrow> js_error + user list" where
  "prisma_create rows row =
     (if findUnique_id rows (user_id row) \<noteq> None \<or> findUnique_email rows (email row) \<noteq> None
      then Inl \<lparr>name = ''PrismaClientKnownRequestError'',
                message = ''Unique constraint failed''\<rparr>
      else Inr (rows @ [row]))"

definition refresh_key :: "string \<Rightarrow> string" where
  "refresh_key i = ''refresh_token:'' @ i"

definition redis_set :: "(string \<rightharpoonup> redis_entry) \<Rightarrow> string \<Rightarrow> string \<Rightarrow> nat
    \<Rightarrow> (string \<rightharpoonup> redis_entry)" where
  "redis_set m k v seconds = m(k \<mapsto> \<lparr>val = v, ex = seconds\<rparr>)"

definition redis_get :: "(string \<rightharpoonup> redis_entry) \<Rightarrow> string \<Rightarrow> string option" where
  "redis_get m k = map_option val (m k)"

definition redis_del :: "(string \<rightharpoonup> redis_entry) \<Rightarrow> string \<Rightarrow> (string \<rightharpoonup> redis_entry)" where
  "redis_del m k = m(k := None)"

section \<open>jwt.utils\<close>

text \<open>The lifetimes \<open>'15m'\<close> and \<open>'7d'\<close> are in seconds.\<close>

definition generateTokens :: "lib \<Rightarrow> config \<Rightarrow> nat \<Rightarrow> JwtPayload \<Rightarrow> token_pair" where
  "generateTokens L C now payload =
     \<lparr>accessToken = jwt_sign L payload (jwtSecret C) (15 * 60) now,
      refreshToken = jwt_sign L payload (jwtRefreshSecret C) (7 * 24 * 60 * 60) now\<rparr>"

definition verifyAccessToken :: "lib \<Rightarrow> config \<Rightarrow> nat \<Rightarrow> string \<Rightarrow> js_error + JwtPayload" where
  "verifyAccessToken L C now token = jwt_verify L token (jwtSecret C) now"

definition verifyRefreshToken :: "lib \<Rightarrow> config \<Rightarrow> nat \<Rightarrow> string \<Rightarrow> js_error + JwtPayload" where
  "verifyRefreshToken L C now token = jwt_verify L token (jwtRefreshSecret C) now"

section \<open>AuthService\<close>

definition role_name :: "role \<Rightarrow> string" where
  "role_name r = (case r of CUSTOMER \<Rightarrow> ''CUSTOMER'' | BARBER \<Rightarrow> ''BARBER'' | ADMIN \<Rightarrow> ''ADMIN'')"

text \<open>
  \<open>{userId: user.id, email: user.email, role: user.role}\<close>, of a row or of a row without
  its password.
\<close>

definition payload_of :: "'a user_public_scheme \<Rightarrow> JwtPayload" where
  "payload_of u = \<lparr>userId = user_id u, p_email = email u, p_role = role_name (role u)\<rparr>"

text \<open>\<open>const { password, ...userWithoutPassword } = user\<close>\<close>

definition omit_password :: "user \<Rightarrow> user_public" where
  "omit_password u =
     \<lparr>user_id = user_id u, email = email u, firstName = firstName u, lastName = lastName u,
      phone = phone u, role = role u, emailVerified = emailVerified u,
      createdAt = createdAt u, updatedAt = updatedAt u\<rparr>"

text \<open>The three places that issue tokens end alike: sign, store the refresh token for 7 days.\<close>

definition store_refresh :: "state \<Rightarrow> string \<Rightarrow> token_pair \<Rightarrow> state" where
  "store_refresh s i t =
     s\<lparr>redis_store := redis_set (redis_store s) (refresh_key i) (refreshToken t)
                         (7 * 24 * 60 * 60)\<rparr>"

definition register :: "lib \<Rightarrow> config \<Rightarrow> string \<Rightarrow> db_generated \<Rightarrow> nat \<Rightarrow> RegisterData \<Rightarrow> state
    \<Rightarrow> (js_error + auth_result) \<times> state" where
  "register L C salt g now data s =
     (case findUnique_email (users s) (r_email data) of
        Some existingUser \<Rightarrow> (Inl (Error ''User already exists with this email''), s)
      | None \<Rightarrow>
          (let hashedPassword = bcrypt_hash L (r_password data) 12 salt;
               u = new_row g data hashedPassword
           in case prisma_create (users s) u of
                Inl e \<Rightarrow> (Inl e, s)
              | Inr rows \<Rightarrow>
                  (let t = generateTokens L C now (payload_of u)
                   in (Inr \<lparr>user = omit_password u, tokens = t\<rparr>,
                       store_refresh (s\<lparr>users := rows\<rparr>) (user_id u) t))))"

definition login :: "lib \<Rightarrow> config \<Rightarrow> nat \<Rightarrow> LoginData \<Rightarrow> state
    \<Rightarrow> (js_error + auth_result) \<times> state" where
  "login L C now data s =
     (case findUnique_email (users s) (l_email data) of
        None \<Rightarrow> (Inl (Error ''Invalid credentials''), s)
      | Some u \<Rightarrow>
          if \<not> bcrypt_compare L (l_password data) (password u)
          then (Inl (Error ''Invalid credentials''), s)
          else (let t = generateTokens L C now (payload_of u)
                in (Inr \<lparr>user = omit_password u, tokens = t\<rparr>,
                    store_refresh s (user_id u) t)))"

definition refreshTokens :: "lib \<Rightarrow> config \<Rightarrow> nat \<Rightarrow> string \<Rightarrow> state
    \<Rightarrow> (js_error + token_pair) \<times> state" where
  "refreshTokens L C now i s =
     (case findUnique_id (users s) i of
        None \<Rightarrow> (Inl (Error ''User not found''), s)
      | Some u \<Rightarrow>
          (let t = generateTokens L C now (payload_of u)
           in (Inr t, store_refresh s (user_id u) t)))"

definition logout :: "string \<Rightarrow> state \<Rightarrow> state" where
  "logout i s = s\<lparr>redis_store := redis_del (redis_store s) (refresh_key i)\<rparr>"

definition getProfile :: "string \<Rightarrow> state \<Rightarrow> user_public option" where
  "getProfile i s =
     (case findUnique_id (users s) i of None \<Rightarrow> None | Some u \<Rightarrow> Some (omit_password u))"

section \<open>The error middleware\<close>

text \<open>
  Values of request and response bodies. A missing field (\<open>undefined\<close>) is \<open>None\<close> where a
  field is read.
\<close>

datatype json = JNull | JBool bool | JNum int | JStr string | JArr "json list"
  | JObj "(string \<times> json) list"

record response =
  status :: nat
  json_body :: "(string \<times> json) list"

text \<open>
  \<open>errorHandler\<close>; the call of the logger is left out. \<open>env\<close> is \<open>process.env.NODE_ENV\<close>.
\<close>

definition errorHandler :: "string option \<Rightarrow> js_error \<Rightarrow> response" where
  "errorHandler env error =
     (if name error = ''ValidationError''
      then \<lparr>status = 400, json_body = [(''message'', JStr ''Validation error''),
                                         (''details'', JStr (message error))]\<rparr>
      else if name error = ''UnauthorizedError''
      then \<lparr>status = 401, json_body = [(''message'', JStr ''Unauthorized'')]\<rparr>
      else if name error = ''PrismaClientKnownRequestError''
      then \<lparr>status = 400, json_body = [(''message'', JStr ''Database error''),
                                         (''details'', JStr ''Invalid request data'')]\<rparr>
      else \<lparr>status = 500,
            json_body = (''message'', JStr ''Internal server error'')
              # (if env = Some ''development'' then [(''details'', JStr (message error))]
                 else [])\<rparr>)"

section \<open>AuthController.refreshToken\<close>

text \<open>
  A handler either sends a response or hands an error to \<open>next\<close>; the application mounts
  \<open>errorHandler\<close> last, which answers the errors handed on.
\<close>

datatype outcome = Responded response | Next js_error

definition respond :: "config \<Rightarrow> outcome \<Rightarrow> response" where
  "respond C out = (case out of Responded r \<Rightarrow> r | Next e \<Rightarrow> errorHandler (nodeEnv C) e)"

text \<open>JavaScript's \<open>!v\<close> for a field of the parsed body, and for what \<open>redis.get\<close> returns.\<close>

definition falsy :: "json option \<Rightarrow> bool" where
  "falsy v =
     (case v of
        None \<Rightarrow> True
      | Some JNull \<Rightarrow> True
      | Some (JBool b) \<Rightarrow> \<not> b
      | Some (JNum n) \<Rightarrow> n = 0
      | Some (JStr x) \<Rightarrow> x = []
      | Some (JArr xs) \<Rightarrow> False
      | Some (JObj kvs) \<Rightarrow> False)"

definition falsy_string :: "string option \<Rightarrow> bool" where
  "falsy_string v = (case v of None \<Rightarrow> True | Some x \<Rightarrow> x = [])"

text \<open>
  \<open>verifyRefreshToken\<close> on a value of the body, which need not be a string: jsonwebtoken
  throws \<open>JsonWebTokenError\<close> on anything else.
\<close>

definition verify_body_token :: "lib \<Rightarrow> config \<Rightarrow> nat \<Rightarrow> json option \<Rightarrow> js_error + JwtPayload" where
  "verify_body_token L C now v =
     (case v of
        Some (JStr tok) \<Rightarrow> verifyRefreshToken L C now tok
      | _ \<Rightarrow> Inl \<lparr>name = ''JsonWebTokenError'', message = ''jwt must be a string''\<rparr>)"

definition tokens_json :: "token_pair \<Rightarrow> json" where
  "tokens_json t = JObj [(''accessToken'', JStr (accessToken t)),
                         (''refreshToken'', JStr (refreshToken t))]"

definition controller_refreshToken :: "lib \<Rightarrow> config \<Rightarrow> nat \<Rightarrow> (string \<rightharpoonup> json) \<Rightarrow> state
    \<Rightarrow> outcome \<times> state" where
  "controller_refreshToken L C now body s =
     (let rt = body ''refreshToken'' in
      if falsy rt
      then (Responded \<lparr>status = 400,
                        json_body = [(''message'', JStr ''Refresh token required'')]\<rparr>, s)
      else case verify_body_token L C now rt of
             Inl e \<Rightarrow> (Next e, s)
           | Inr decoded \<Rightarrow>
               (let storedToken = redis_get (redis_store s) (refresh_key (userId decoded)) in
                if falsy_string storedToken \<or> map_option JStr storedToken \<noteq> rt
                then (Responded \<lparr>status = 403,
                                  json_body = [(''message'', JStr ''Invalid refresh token'')]\<rparr>, s)
                else case refreshTokens L C now (userId decoded) s of
                       (Inl e, s') \<Rightarrow> (Next e, s')
                     | (Inr t, s') \<Rightarrow>
                         (Responded \<lparr>status = 200,
                                     json_body = [(''message'', JStr ''Tokens refreshed successfully''),
                                                  (''tokens'', tokens_json t)]\<rparr>, s')))"

text \<open>A response that carries tokens.\<close>

definition issues_tokens :: "outcome \<Rightarrow> bool" where
  "issues_tokens out =
     (case out of Responded r \<Rightarrow> map_of (json_body r) ''tokens'' \<noteq> None | Next e \<Rightarrow> False)"

section \<open>Sequences of operations\<close>

text \<open>
  The operations of the service as one step function. A step reports the user id and the
  refresh token it issued, if it issued one.
\<close>

datatype auth_op =
    Register string db_generated nat RegisterData
  | Login nat LoginData
  | RefreshTokens nat string
  | Logout string

definition run_op :: "lib \<Rightarrow> config \<Rightarrow> auth_op \<Rightarrow> state \<Rightarrow> (string \<times> string) option \<times> state" where
  "run_op L C op s =
     (case op of
        Register salt g now data \<Rightarrow>
          (case register L C salt g now data s of
             (Inl e, s') \<Rightarrow> (None, s')
           | (Inr r, s') \<Rightarrow> (Some (user_id (user r), refreshToken (tokens r)), s'))
      | Login now data \<Rightarrow>
          (case login L C now data s of
             (Inl e, s') \<Rightarrow> (None, s')
           | (Inr r, s') \<Rightarrow> (Some (user_id (user r), refreshToken (tokens r)), s'))
      | RefreshTokens now i \<Rightarrow>
          (case refreshTokens L C now i s of
             (Inl e, s') \<Rightarrow> (None, s')
           | (Inr t, s') \<Rightarrow> (Some (i, refreshToken t), s'))
      | Logout i \<Rightarrow> (None, logout i s))"



text \<open>Every refresh token in Redis belongs to a user of the table.\<close>

definition tokens_have_users :: "state \<Rightarrow> bool" where
  "tokens_have_users s =
     (\<forall>i. redis_store s (refresh_key i) \<noteq> None \<longrightarrow> findUnique_id (users s) i \<noteq> None)"

section \<open>Slot generation\<close>

text \<open>
  Times of a day are minutes (the schedule schema has \<open>HH:MM\<close> strings, the service schema a
  duration in minutes); a booking and a slot are half-open intervals.
\<close>

record booking =
  b_start :: nat
  b_end :: nat

record slot =
  slot_start :: nat
  slot_end :: nat

definition overlaps :: "slot \<Rightarrow> booking \<Rightarrow> bool" where
  "overlaps sl b = (b_start b < slot_end sl \<and> slot_start sl < b_end b)"

text \<open>
  Modelled from the spec: the slot generation, which the repository does not implement (its
  availability endpoint is listed as future work). The spec describes it as an interval scan
  over the sorted list of existing bookings at a fixed granularity, which gives the free slots
  of a shop from its opening hours and a service duration. \<open>scan g d close t bs\<close> is the scan
  from the candidate start \<open>t\<close> on: the candidates follow each other at the granularity \<open>g\<close>,
  each lasts \<open>d\<close>, and the first that would end after \<open>close\<close> ends the scan. The scan drops
  the bookings that ended by \<open>t\<close> and excludes the candidate if the next booking starts before
  the candidate ends. A granularity of 0 gives no slots.
\<close>

function scan :: "nat \<Rightarrow> nat \<Rightarrow> nat \<Rightarrow> nat \<Rightarrow> booking list \<Rightarrow> slot list" where
  "scan g d close t bs =
     (if g = 0 \<or> close < t + d then []
      else (case dropWhile (\<lambda>b. b_end b \<le> t) bs of
              [] \<Rightarrow> \<lparr>slot_start = t, slot_end = t + d\<rparr> # scan g d close (t + g) []
            | b # rest \<Rightarrow>
                if b_start b < t + d then scan g d close (t + g) (b # rest)
                else \<lparr>slot_start = t, slot_end = t + d\<rparr> # scan g d close (t + g) (b # rest)))"
  by pat_completeness auto
termination
  by (relation "measure (\<lambda>(g, d, close, t, bs). Suc close - t)") auto

text \<open>
  Modelled from the spec: the slots of a day, from the opening time on, over the bookings
  sorted by their start.
\<close>

definition generate_slots :: "nat \<Rightarrow> nat \<Rightarrow> nat \<Rightarrow> nat \<Rightarrow> booking list \<Rightarrow> slot list" where
  "generate_slots g openTime closeTime duration bookings =
     scan g duration closeTime openTime (sort_key b_start bookings)"

section \<open>Stand-ins for the libraries, to run the model\<close>

text \<open>
  A small bcrypt and a small jsonwebtoken, used only to evaluate the operations at concrete
  inputs. The hash is the salt, a \<open>$\<close> and the reversed password. A token is the secret, the
  three payload fields and the expiry time in binary, separated by \<open>|\<close>; verifying it fails
  with \<open>JsonWebTokenError\<close> on another secret or shape and with \<open>TokenExpiredError\<close> from
  the expiry time on, as jsonwebtoken does.
\<close>

definition demo_hash :: "string \<Rightarrow> nat \<Rightarrow> string \<Rightarrow> string" where
  "demo_hash pw rounds salt = salt @ ''$'' @ rev pw"

definition demo_compare :: "string \<Rightarrow> string \<Rightarrow> bool" where
  "demo_compare pw h = (dropWhile (\<lambda>c. c \<noteq> CHR ''$'') h = ''$'' @ rev pw)"

fun enc_nat :: "nat \<Rightarrow> string" where
  "enc_nat n =
     (if n < 2 then [if n = 0 then CHR ''0'' else CHR ''1'']
      else (if even n then CHR ''0'' else CHR ''1'') # enc_nat (n div 2))"

fun dec_nat :: "string \<Rightarrow> nat" where
  "dec_nat [] = 0"
| "dec_nat (c # cs) = (if c = CHR ''1'' then 1 else 0) + 2 * dec_nat cs"

fun fields :: "string \<Rightarrow> string list" where
  "fields [] = [[]]"
| "fields (c # cs) =
     (if c = CHR ''|'' then [] # fields cs
      else (case fields cs of [] \<Rightarrow> [[c]] | f # fs \<Rightarrow> (c # f) # fs))"

definition demo_sign :: "JwtPayload \<Rightarrow> string \<Rightarrow> nat \<Rightarrow> nat \<Rightarrow> string" where
  "demo_sign p secret expiresIn now =
     secret @ ''|'' @ userId p @ ''|'' @ p_email p @ ''|'' @ p_role p @ ''|''
       @ enc_nat (now + expiresIn)"

definition demo_verify :: "string \<Rightarrow> string \<Rightarrow> nat \<Rightarrow> js_error + JwtPayload" where
  "demo_verify token secret now =
     (case fields token of
        [s, i, e, r, x] \<Rightarrow>
          if s \<noteq> secret
          then Inl \<lparr>name = ''JsonWebTokenError'', message = ''invalid signature''\<rparr>
          else if dec_nat x \<le> now
          then Inl \<lparr>name = ''TokenExpiredError'', message = ''jwt expired''\<rparr>
          else Inr \<lparr>userId = i, p_email = e, p_role = r\<rparr>
      | _ \<Rightarrow> Inl \<lparr>name = ''JsonWebTokenError'', message = ''jwt malformed''\<rparr>)"

definition demo_lib :: lib where
  "demo_lib = \<lparr>bcrypt_hash = demo_hash, bcrypt_compare = demo_compare,
               jwt_sign = demo_sign, jwt_verify = demo_verify\<rparr>"

definition demo_config :: config where
  "demo_config = \<lparr>jwtSecret = ''as'', jwtRefreshSecret = ''rs'', nodeEnv = None\<rparr>"

definition demo_generated :: db_generated where
  "demo_generated = \<lparr>gen_id = ''u1'', gen_emailVerified = False, gen_createdAt = 0,
                     gen_updatedAt = 0\<rparr>"

definition ann :: RegisterData where
  "ann = \<lparr>r_email = ''ann@x.org'', r_password = ''secret12'', r_firstName = ''Ann'',
          r_lastName = ''Lee'', r_phone = None, r_role = None\<rparr>"

definition empty_state :: state where
  "empty_state = \<lparr>users = [], redis_store = Map.empty\<rparr>"

text \<open>The state after Ann has registered at time 0.\<close>

definition ann_state :: state where
  "ann_state = snd (register demo_lib demo_config ''ab'' demo_generated 0 ann empty_state)"

definition ann_row :: user where
  "ann_row = \<lparr>user_id = ''u1'', email = ''ann@x.org'', firstName = ''Ann'', lastName = ''Lee'',
              phone = None, role = CUSTOMER, emailVerified = False, createdAt = 0,
              updatedAt = 0, password = ''ab$21terces''\<rparr>"

definition ann_tokens :: token_pair where
  "ann_tokens = \<lparr>accessToken = ''as|u1|ann@x.org|CUSTOMER|0010000111'',
                 refreshToken = ''rs|u1|ann@x.org|CUSTOMER|00000001010111001001''\<rparr>"

definition ann_payload :: JwtPayload where
  "ann_payload = \<lparr>userId = ''u1'', p_email = ''ann@x.org'', p_role = ''CUSTOMER''\<rparr>"

definition ann_login :: LoginData where
  "ann_login = \<lparr>l_email = ''ann@x.org'', l_password = ''secret12''\<rparr>"

definition ann_refresh_body :: "string \<rightharpoonup> json" where
  "ann_refresh_body = [''refreshToken'' \<mapsto> JStr (refreshToken ann_tokens)]"

definition demo_bookings :: "booking list" where
  "demo_bookings = [\<lparr>b_start = 600, b_end = 645\<rparr>, \<lparr>b_start = 540, b_end = 560\<rparr>]"

section \<open>Predicates used in the proofs\<close>

text \<open>
  The four ways an operation of the service changes the state: not at all, by deleting a
  key, by storing a token for a user of the table, by adding a row and storing a token.
\<close>

definition op_effect :: "state \<Rightarrow> (string \<times> string) option \<Rightarrow> state \<Rightarrow> bool" where
  "op_effect s issued s' \<longleftrightarrow>
     (issued = None \<and> s' = s)
     \<or> (\<exists>i. issued = None \<and> s' = logout i s)
     \<or> (\<exists>i t u. issued = Some (i, refreshToken t) \<and> s' = store_refresh s i t
            \<and> findUnique_id (users s) i = Some u)
     \<or> (\<exists>u t. issued = Some (user_id u, refreshToken t)
            \<and> s' = store_refresh (s\<lparr>users := users s @ [u]\<rparr>) (user_id u) t)"

text \<open>Bookings in the order of their start times.\<close>

abbreviation by_start :: "booking list \<Rightarrow> bool" where
  "by_start bs \<equiv> sorted_wrt (\<lambda>a b. b_start a \<le> b_start b) bs"

section \<open>Facts about the model\<close>

lemmas model_defs = register_def login_def refreshTokens_def logout_def getProfile_def
  findUnique_email_def findUnique_id_def prisma_create_def new_row_def store_refresh_def
  redis_set_def redis_get_def redis_del_def refresh_key_def generateTokens_def payload_of_def
  omit_password_def role_name_def role_or_default_def Error_def verifyAccessToken_def
  verifyRefreshToken_def

lemmas demo_defs = demo_lib_def demo_config_def demo_generated_def ann_def empty_state_def
  demo_hash_def demo_compare_def demo_sign_def demo_verify_def ann_row_def ann_tokens_def
  ann_payload_def ann_login_def

declare scan.simps [simp del]

subsection \<open>Looking rows up\<close>

lemma find_Some_set: "find P xs = Some x \<Longrightarrow> x \<in> set xs \<and> P x"
  by (induction xs) (auto split: if_splits)

lemma find_append_new:
  "find P xs = None \<Longrightarrow> P x \<Longrightarrow> find P (xs @ [x]) = Some x"
  by (induction xs) (auto split: if_splits)

lemma find_append_old: "find P xs = Some y \<Longrightarrow> find P (xs @ zs) = Some y"
  by (induction xs) (auto split: if_splits)

lemma find_email_Some:
  "u \<in> set rows \<Longrightarrow> email u = e \<Longrightarrow> findUnique_email rows e \<noteq> None"
  by (auto simp: findUnique_email_def find_None_iff)

lemma findUnique_id_Some: "findUnique_id rows i = Some u \<Longrightarrow> u \<in> set rows \<and> user_id u = i"
  unfolding findUnique_id_def by (rule find_Some_set)

lemma findUnique_email_Some: "findUnique_email rows e = Some u \<Longrightarrow> u \<in> set rows \<and> email u = e"
  unfolding findUnique_email_def by (rule find_Some_set)

lemma in_set_findUnique_id:
  "u \<in> set rows \<Longrightarrow> \<exists>v. findUnique_id rows (user_id u) = Some v"
  by (cases "findUnique_id rows (user_id u)") (auto simp: findUnique_id_def find_None_iff)

lemma payload_of_omit: "payload_of (omit_password u) = payload_of u"
  by (simp add: payload_of_def omit_password_def)

lemma refresh_key_inj [simp]: "(refresh_key i = refresh_key j) = (i = j)"
  by (simp add: refresh_key_def)

subsection \<open>What the operations of the service do\<close>

lemma redis_store_store_refresh:
  "redis_store (store_refresh s i t) =
     (redis_store s)(refresh_key i \<mapsto> \<lparr>val = refreshToken t, ex = 604800\<rparr>)"
  by (simp add: store_refresh_def redis_set_def)

lemma users_store_refresh: "users (store_refresh s i t) = users s"
  by (simp add: store_refresh_def)

lemma redis_store_logout:
  "redis_store (logout i s) = (redis_store s)(refresh_key i := None)"
  by (simp add: logout_def redis_del_def)

lemma users_logout: "users (logout i s) = users s"
  by (simp add: logout_def)

text \<open>
  What a successful \<open>register\<close> and a successful \<open>login\<close> did, and that a failed one did nothing.
\<close>

lemma register_success:
  assumes "register L C salt g now data s = (Inr r, s1)"
  shows "findUnique_email (users s) (r_email data) = None
       \<and> r = \<lparr>user = omit_password (new_row g data (bcrypt_hash L (r_password data) 12 salt)),
              tokens = generateTokens L C now
                (payload_of (new_row g data (bcrypt_hash L (r_password data) 12 salt)))\<rparr>
       \<and> s1 = store_refresh
                (s\<lparr>users := users s @ [new_row g data (bcrypt_hash L (r_password data) 12 salt)]\<rparr>)
                (gen_id g) (tokens r)"
  using assms
  by (auto simp: register_def prisma_create_def new_row_def Let_def
      split: option.splits if_splits)

lemma register_failure:
  "register L C salt g now data s = (Inl e, s1) \<Longrightarrow> s1 = s"
  by (auto simp: register_def Let_def prisma_create_def split: option.splits if_splits)

lemma login_success:
  assumes "login L C now d s = (Inr r, s1)"
  shows "\<exists>u. findUnique_email (users s) (l_email d) = Some u
           \<and> bcrypt_compare L (l_password d) (password u)
           \<and> r = \<lparr>user = omit_password u, tokens = generateTokens L C now (payload_of u)\<rparr>
           \<and> s1 = store_refresh s (user_id u) (tokens r)"
  using assms
  by (auto simp: login_def Let_def split: option.splits if_splits)

lemma login_failure:
  "login L C now data s = (Inl e, s1) \<Longrightarrow> s1 = s"
  by (auto simp: login_def Let_def split: option.splits if_splits)

lemma refreshTokens_found:
  "findUnique_id (users s) i = Some u \<Longrightarrow>
     refreshTokens L C now i s =
       (Inr (generateTokens L C now (payload_of u)),
        store_refresh s i (generateTokens L C now (payload_of u)))"
  using findUnique_id_Some [of "users s" i u]
  by (simp add: refreshTokens_def Let_def)

lemma register_effect:
  assumes "register L C salt g now data s = (res, s1)"
  shows "op_effect s (case res of Inl e \<Rightarrow> None
                      | Inr r \<Rightarrow> Some (user_id (user r), refreshToken (tokens r))) s1"
proof (cases res)
  case (Inl e)
  with assms register_failure [of L C salt g now data s e s1] show ?thesis
    by (simp add: op_effect_def)
next
  case (Inr r)
  let ?u = "new_row g data (bcrypt_hash L (r_password data) 12 salt)"
  from assms Inr have reg: "register L C salt g now data s = (Inr r, s1)" by simp
  from register_success [OF reg]
  have r: "user r = omit_password ?u"
    and s1: "s1 = store_refresh (s\<lparr>users := users s @ [?u]\<rparr>) (gen_id g) (tokens r)"
    by simp_all
  have i: "user_id (user r) = user_id ?u" "gen_id g = user_id ?u"
    by (simp_all add: r omit_password_def new_row_def)
  have "\<exists>u t. Some (user_id (user r), refreshToken (tokens r)) = Some (user_id u, refreshToken t)
            \<and> s1 = store_refresh (s\<lparr>users := users s @ [u]\<rparr>) (user_id u) t"
    using s1 unfolding i by blast
  with Inr show ?thesis
    by (simp add: op_effect_def)
qed

lemma login_effect:
  assumes "login L C now data s = (res, s1)"
  shows "op_effect s (case res of Inl e \<Rightarrow> None
                      | Inr r \<Rightarrow> Some (user_id (user r), refreshToken (tokens r))) s1"
proof (cases res)
  case (Inl e)
  with assms login_failure [of L C now data s e s1] show ?thesis
    by (simp add: op_effect_def)
next
  case (Inr r)
  from assms Inr have log: "login L C now data s = (Inr r, s1)" by simp
  from login_success [OF log] obtain u where
    f: "findUnique_email (users s) (l_email data) = Some u"
    and r: "r = \<lparr>user = omit_password u, tokens = generateTokens L C now (payload_of u)\<rparr>"
    and s1: "s1 = store_refresh s (user_id u) (tokens r)"
    by blast
  from findUnique_email_Some [OF f] have "u \<in> set (users s)" by blast
  from in_set_findUnique_id [OF this] obtain v where
    v: "findUnique_id (users s) (user_id u) = Some v" ..
  have i: "user_id (user r) = user_id u"
    by (simp add: r omit_password_def)
  have "\<exists>i t u. Some (user_id (user r), refreshToken (tokens r)) = Some (i, refreshToken t)
          \<and> s1 = store_refresh s i t \<and> findUnique_id (users s) i = Some u"
    using s1 v unfolding i by blast
  with Inr show ?thesis
    by (simp add: op_effect_def)
qed

lemma refreshTokens_effect:
  assumes "refreshTokens L C now i s = (res, s1)"
  shows "op_effect s (case res of Inl e \<Rightarrow> None | Inr t \<Rightarrow> Some (i, refreshToken t)) s1"
proof (cases "findUnique_id (users s) i")
  case None
  with assms show ?thesis
    by (auto simp: refreshTokens_def op_effect_def)
next
  case (Some u)
  from refreshTokens_found [OF Some, of L C now] assms
  have res: "res = Inr (generateTokens L C now (payload_of u))"
    and s1: "s1 = store_refresh s i (generateTokens L C now (payload_of u))"
    by simp_all
  have "\<exists>j t v. Some (i, refreshToken (generateTokens L C now (payload_of u))) = Some (j, refreshToken t)
          \<and> s1 = store_refresh s j t \<and> findUnique_id (users s) j = Some v"
    using s1 Some by blast
  then show ?thesis
    by (simp add: op_effect_def res)
qed

lemma run_op_effect:
  assumes "run_op L C op s = (issued, s')"
  shows "op_effect s issued s'"
proof (cases op)
  case (Register salt g now data)
  obtain res s1 where eq: "register L C salt g now data s = (res, s1)"
    by (cases "register L C salt g now data s")
  from register_effect [OF eq] assms Register eq show ?thesis
    by (cases res) (simp_all add: run_op_def)
next
  case (Login now data)
  obtain res s1 where eq: "login L C now data s = (res, s1)"
    by (cases "login L C now data s")
  from login_effect [OF eq] assms Login eq show ?thesis
    by (cases res) (simp_all add: run_op_def)
next
  case (RefreshTokens now i)
  obtain res s1 where eq: "refreshTokens L C now i s = (res, s1)"
    by (cases "refreshTokens L C now i s")
  from refreshTokens_effect [OF eq] assms RefreshTokens eq show ?thesis
    by (cases res) (simp_all add: run_op_def)
next
  case (Logout i)
  with assms have "issued = None" "s' = logout i s"
    by (simp_all add: run_op_def)
  then show ?thesis
    unfolding op_effect_def by blast
qed

subsection \<open>The refresh handler, by the shape of the request\<close>

lemma controller_falsy:
  "falsy (body ''refreshToken'') \<Longrightarrow>
     controller_refreshToken L C now body s =
       (Responded \<lparr>status = 400, json_body = [(''message'', JStr ''Refresh token required'')]\<rparr>, s)"
  by (simp add: controller_refreshToken_def)

lemma controller_string:
  assumes "body ''refreshToken'' = Some (JStr tok)" and "tok \<noteq> []"
  shows "controller_refreshToken L C now body s =
     (case verifyRefreshToken L C now tok of
        Inl e \<Rightarrow> (Next e, s)
      | Inr p \<Rightarrow>
          if redis_get (redis_store s) (refresh_key (userId p)) \<noteq> Some tok
          then (Responded \<lparr>status = 403,
                            json_body = [(''message'', JStr ''Invalid refresh token'')]\<rparr>, s)
          else (case refreshTokens L C now (userId p) s of
                  (Inl e, s') \<Rightarrow> (Next e, s')
                | (Inr t, s') \<Rightarrow>
                    (Responded \<lparr>status = 200,
                       json_body = [(''message'', JStr ''Tokens refreshed successfully''),
                                    (''tokens'', tokens_json t)]\<rparr>, s')))"
  using assms
  by (auto simp: controller_refreshToken_def falsy_def verify_body_token_def falsy_string_def
      Let_def split: sum.splits option.splits)

lemma controller_other:
  assumes "\<not> falsy (body ''refreshToken'')" and "\<forall>tok. body ''refreshToken'' \<noteq> Some (JStr tok)"
  shows "controller_refreshToken L C now body s =
     (Next \<lparr>name = ''JsonWebTokenError'', message = ''jwt must be a string''\<rparr>, s)"
  using assms
  by (auto simp: controller_refreshToken_def verify_body_token_def falsy_def
      split: option.splits json.splits)

subsection \<open>Tokens in Redis belong to users of the table\<close>

text \<open>
  The property holds in the empty state and every operation keeps it, so it holds in every
  state the service reaches.
\<close>

lemma tokens_have_users_empty: "tokens_have_users empty_state"
  by (simp add: tokens_have_users_def empty_state_def)

lemma tokens_have_users_run_op:
  assumes "run_op L C op s = (issued, s')" and inv: "tokens_have_users s"
  shows "tokens_have_users s'"
proof -
  from run_op_effect [OF assms(1)]
  consider "s' = s"
    | i where "s' = logout i s"
    | i t u where "s' = store_refresh s i t" "findUnique_id (users s) i = Some u"
    | u t where "s' = store_refresh (s\<lparr>users := users s @ [u]\<rparr>) (user_id u) t"
    unfolding op_effect_def by blast
  then show ?thesis
  proof cases
    case 1
    with inv show ?thesis by simp
  next
    case 2
    with inv show ?thesis
      by (auto simp: tokens_have_users_def redis_store_logout users_logout)
  next
    case 3
    with inv show ?thesis
      by (auto simp: tokens_have_users_def redis_store_store_refresh users_store_refresh)
  next
    case 4
    have "findUnique_id (users s @ [u]) j \<noteq> None"
      if "j = user_id u \<or> findUnique_id (users s) j \<noteq> None" for j
      using that
      by (cases "findUnique_id (users s) j")
        (auto simp: findUnique_id_def find_append_old find_append_new)
    with inv 4 show ?thesis
      by (auto simp: tokens_have_users_def redis_store_store_refresh users_store_refresh)
  qed
qed

lemma tokens_have_users_controller:
  assumes inv: "tokens_have_users s"
  shows "tokens_have_users (snd (controller_refreshToken L C now body s))"
proof (cases "\<exists>tok. body ''refreshToken'' = Some (JStr tok) \<and> tok \<noteq> []")
  case False
  then have "falsy (body ''refreshToken'') \<or>
      (\<not> falsy (body ''refreshToken'') \<and> (\<forall>tok. body ''refreshToken'' \<noteq> Some (JStr tok)))"
    by (auto simp: falsy_def)
  with inv show ?thesis
    by (auto simp: controller_falsy controller_other)
next
  case True
  then obtain tok where b: "body ''refreshToken'' = Some (JStr tok)" and ne: "tok \<noteq> []"
    by blast
  show ?thesis
  proof (cases "verifyRefreshToken L C now tok")
    case (Inl e)
    with inv show ?thesis
      by (simp add: controller_string [where body = body, OF b ne])
  next
    case (Inr p)
    obtain res s1 where eq: "refreshTokens L C now (userId p) s = (res, s1)"
      by (cases "refreshTokens L C now (userId p) s")
    then have "run_op L C (RefreshTokens now (userId p)) s =
        ((case res of Inl e \<Rightarrow> None | Inr t \<Rightarrow> Some (userId p, refreshToken t)), s1)"
      by (cases res) (simp_all add: run_op_def)
    from tokens_have_users_run_op [OF this inv] have "tokens_have_users s1" .
    with inv Inr eq show ?thesis
      by (cases res) (simp_all add: controller_string [where body = body, OF b ne])
  qed
qed

lemma inv_found:
  assumes "tokens_have_users s" and "redis_get (redis_store s) (refresh_key i) = Some tok"
  shows "\<exists>u. findUnique_id (users s) i = Some u"
  using assms by (auto simp: tokens_have_users_def redis_get_def)

subsection \<open>Keys of Redis\<close>



lemma absent_stays_absent:
  assumes "redis_store s0 (refresh_key i) = None" and "run_op L C op s0 = (issued, s1)"
    and "\<forall>t. issued \<noteq> Some (i, t)"
  shows "redis_store s1 (refresh_key i) = None"
proof -
  from run_op_effect [OF assms(2)]
  consider "s1 = s0"
    | j where "s1 = logout j s0"
    | j t where "issued = Some (j, refreshToken t)" "s1 = store_refresh s0 j t"
    | u t where "issued = Some (user_id u, refreshToken t)"
        "s1 = store_refresh (s0\<lparr>users := users s0 @ [u]\<rparr>) (user_id u) t"
    unfolding op_effect_def by blast
  then show ?thesis
  proof cases
    case 1
    with assms(1) show ?thesis by simp
  next
    case 2
    with assms(1) show ?thesis by (simp add: redis_store_logout)
  next
    case 3
    with assms(1,3) show ?thesis by (auto simp: redis_store_store_refresh)
  next
    case 4
    with assms(1,3) show ?thesis by (auto simp: redis_store_store_refresh)
  qed
qed

subsection \<open>The scan\<close>

lemma scan_shape:
  "sl \<in> set (scan g d close t bs) \<Longrightarrow>
     t \<le> slot_start sl \<and> slot_end sl = slot_start sl + d \<and> slot_end sl \<le> close
     \<and> g dvd (slot_start sl - t)"
proof (induction g d close t bs rule: scan.induct)
  case (1 g d close t bs)
  show ?case
  proof (cases "g = 0 \<or> close < t + d")
    case True
    with "1.prems" show ?thesis by (simp add: scan.simps [of g d close t bs])
  next
    case False
    let ?rest = "dropWhile (\<lambda>b. b_end b \<le> t) bs"
    have later: "t \<le> slot_start sl \<and> slot_end sl = slot_start sl + d \<and> slot_end sl \<le> close
        \<and> g dvd (slot_start sl - t)"
      if "t + g \<le> slot_start sl \<and> slot_end sl = slot_start sl + d \<and> slot_end sl \<le> close
        \<and> g dvd (slot_start sl - (t + g))"
    proof -
      from that have "slot_start sl - t = (slot_start sl - (t + g)) + g" by simp
      with that show ?thesis by (metis dvd_add_triv_right_iff le_add1 le_trans)
    qed
    have here: "t \<le> slot_start sl \<and> slot_end sl = slot_start sl + d \<and> slot_end sl \<le> close
        \<and> g dvd (slot_start sl - t)"
      if "sl = \<lparr>slot_start = t, slot_end = t + d\<rparr>"
      using that False by simp
    show ?thesis
    proof (cases ?rest)
      case Nil
      with "1.prems" False
      have "sl = \<lparr>slot_start = t, slot_end = t + d\<rparr> \<or> sl \<in> set (scan g d close (t + g) [])"
        by (simp add: scan.simps [of g d close t bs])
      with "1.IH"(1) [OF False Nil] here later show ?thesis by blast
    next
      case (Cons b rest)
      show ?thesis
      proof (cases "b_start b < t + d")
        case True
        with "1.prems" False Cons have "sl \<in> set (scan g d close (t + g) (b # rest))"
          by (simp add: scan.simps [of g d close t bs])
        with "1.IH"(2) [OF False Cons True] later show ?thesis by blast
      next
        case nb: False
        with "1.prems" False Cons
        have "sl = \<lparr>slot_start = t, slot_end = t + d\<rparr>
            \<or> sl \<in> set (scan g d close (t + g) (b # rest))"
          by (simp add: scan.simps [of g d close t bs])
        with "1.IH"(3) [OF False Cons nb] here later show ?thesis by blast
      qed
    qed
  qed
qed

lemma dropped_or_kept:
  assumes "b \<in> set bs"
  shows "b_end b \<le> t \<or> b \<in> set (dropWhile (\<lambda>b. b_end b \<le> t) bs)"
proof -
  have "set bs = set (takeWhile (\<lambda>b. b_end b \<le> t) bs) \<union> set (dropWhile (\<lambda>b. b_end b \<le> t) bs)"
    by (metis set_append takeWhile_dropWhile_id)
  with assms show ?thesis
    by (auto dest: set_takeWhileD)
qed

lemma scan_free:
  "by_start bs \<Longrightarrow> sl \<in> set (scan g d close t bs) \<Longrightarrow> b \<in> set bs \<Longrightarrow> \<not> overlaps sl b"
proof (induction g d close t bs rule: scan.induct)
  case (1 g d close t bs)
  show ?case
  proof (cases "g = 0 \<or> close < t + d")
    case True
    with "1.prems" show ?thesis by (simp add: scan.simps [of g d close t bs])
  next
    case False
    let ?rest = "dropWhile (\<lambda>b. b_end b \<le> t) bs"
    have sorted_rest: "by_start ?rest"
      using "1.prems"(1) by simp
    from dropped_or_kept [OF "1.prems"(3), of t]
    have b: "b_end b \<le> t \<or> b \<in> set ?rest" .
    have kept: "b_end b \<le> t \<or> b \<in> set (b0 # rest)" if "?rest = b0 # rest" for b0 rest
      using b that by simp
    have ended: "\<not> overlaps sl b" if "b_end b \<le> t" "t \<le> slot_start sl"
      using that by (simp add: overlaps_def)
    show ?thesis
    proof (cases ?rest)
      case Nil
      with b have e: "b_end b \<le> t" by simp
      from "1.prems"(2) False Nil
      have "sl = \<lparr>slot_start = t, slot_end = t + d\<rparr> \<or> sl \<in> set (scan g d close (t + g) [])"
        by (simp add: scan.simps [of g d close t bs])
      then have "t \<le> slot_start sl"
        using scan_shape [where sl = sl and g = g and d = d and close = close and t = "t + g"
            and bs = "[]"] by auto
      with e ended show ?thesis by blast
    next
      case (Cons b0 rest)
      with sorted_rest have s0: "by_start (b0 # rest)" by simp
      then have first: "b_start b0 \<le> b_start x" if "x \<in> set (b0 # rest)" for x
        using that by auto
      show ?thesis
      proof (cases "b_start b0 < t + d")
        case True
        with "1.prems"(2) False Cons have in_rec: "sl \<in> set (scan g d close (t + g) (b0 # rest))"
          by (simp add: scan.simps [of g d close t bs])
        from scan_shape [OF in_rec] have "t \<le> slot_start sl" by simp
        with ended kept [OF Cons] "1.IH"(2) [OF False Cons True s0 in_rec] show ?thesis
          by blast
      next
        case nb: False
        with "1.prems"(2) False Cons
        consider "sl = \<lparr>slot_start = t, slot_end = t + d\<rparr>"
          | "sl \<in> set (scan g d close (t + g) (b0 # rest))"
          by (auto simp: scan.simps [of g d close t bs])
        then show ?thesis
        proof cases
          case 1
          show ?thesis
          proof (cases "b_end b \<le> t")
            case True
            with 1 show ?thesis by (simp add: overlaps_def)
          next
            case False
            with kept [OF Cons] have "b \<in> set (b0 # rest)" by simp
            from first [OF this] nb 1 show ?thesis
              by (simp add: overlaps_def)
          qed
        next
          case 2
          from scan_shape [OF 2] have "t \<le> slot_start sl" by simp
          with ended kept [OF Cons] "1.IH"(3) [OF False Cons nb s0 2] show ?thesis
            by blast
        qed
      qed
    qed
  qed
qed

subsection \<open>The example state\<close>

lemma ann_register:
  "register demo_lib demo_config ''ab'' demo_generated 0 ann empty_state =
     (Inr \<lparr>user = omit_password ann_row, tokens = ann_tokens\<rparr>, ann_state)"
  by (simp add: ann_state_def model_defs demo_defs)

lemma ann_users: "users ann_state = [ann_row]"
  by (simp add: ann_state_def model_defs demo_defs)

lemma ann_redis:
  "redis_store ann_state =
     [''refresh_token:u1'' \<mapsto> \<lparr>val = refreshToken ann_tokens, ex = 604800\<rparr>]"
  by (simp add: ann_state_def model_defs demo_defs)

lemma ann_login_success:
  "login demo_lib demo_config 5 ann_login ann_state =
     (Inr \<lparr>user = omit_password ann_row, tokens = generateTokens demo_lib demo_config 5 ann_payload\<rparr>,
      store_refresh ann_state ''u1'' (generateTokens demo_lib demo_config 5 ann_payload))"
  by (simp add: login_def ann_users findUnique_email_def payload_of_def role_name_def Let_def
      demo_defs)

lemma ann_logged_out:
  "users (logout ''u1'' ann_state) = [ann_row]"
  "redis_store (logout ''u1'' ann_state) = Map.empty"
  by (simp_all add: logout_def ann_users ann_redis redis_del_def refresh_key_def)

lemma ann_has_users: "tokens_have_users ann_state"
  by (simp add: tokens_have_users_def ann_users ann_redis findUnique_id_def refresh_key_def
      ann_row_def)

lemma ann_logged_out_has_users: "tokens_have_users (logout ''u1'' ann_state)"
  by (simp add: tokens_have_users_def ann_logged_out)

lemma demo_slots:
  "generate_slots 30 540 720 45 demo_bookings = [\<lparr>slot_start = 660, slot_end = 705\<rparr>]"
  by (simp add: generate_slots_def demo_bookings_def scan.simps)

section \<open>Claims\<close>

text \<open>
  C1. If the table holds a user whose email is the requested one, \<open>register\<close> throws
  \<open>Error('User already exists with this email')\<close> and leaves the state as it was: no row is
  added and nothing is written to Redis.
\<close>

theorem register_duplicate_email:
  assumes "u \<in> set (users s)" and "email u = r_email data"
  shows "register L C salt g now data s =
           (Inl \<lparr>name = ''Error'', message = ''User already exists with this email''\<rparr>, s)"
proof -
  from assms obtain x where "findUnique_email (users s) (r_email data) = Some x"
    using find_email_Some by fastforce
  then show ?thesis
    by (simp add: register_def Error_def)
qed

text \<open>
  Ann registers a second time, with another salt, at another time.
\<close>

theorem register_duplicate_email_witness:
  "register demo_lib demo_config ''cd'' demo_generated 7 ann ann_state =
     (Inl \<lparr>name = ''Error'', message = ''User already exists with this email''\<rparr>, ann_state)"
  using register_duplicate_email [of ann_row ann_state ann demo_lib demo_config "''cd''"
      demo_generated 7]
  by (simp add: ann_users ann_row_def ann_def)

text \<open>
  C2. After a registration that \<open>register\<close> accepted, \<open>login\<close> with the same email and the same
  plaintext password succeeds and returns the same user; its access token verifies under
  \<open>jwtSecret\<close> and its refresh token under \<open>jwtRefreshSecret\<close>, both to the payload made of
  the user's id, email and role. The libraries are assumed to do their part at the values
  concerned: \<open>bcrypt.compare\<close> accepts the password against its own hash, and at the time \<open>tv\<close>
  of the check \<open>jwt.verify\<close> returns the payload of a token signed at the time \<open>now2\<close> of
  the login.
\<close>

theorem register_then_login:
  assumes reg: "register L C salt g now data s = (Inr r, s1)"
    and cmp: "bcrypt_compare L (r_password data) (bcrypt_hash L (r_password data) 12 salt)"
    and acc: "jwt_verify L (jwt_sign L (payload_of (user r)) (jwtSecret C) (15 * 60) now2)
                (jwtSecret C) tv = Inr (payload_of (user r))"
    and ref: "jwt_verify L
                (jwt_sign L (payload_of (user r)) (jwtRefreshSecret C) (7 * 24 * 60 * 60) now2)
                (jwtRefreshSecret C) tv = Inr (payload_of (user r))"
  shows "\<exists>r2 s2.
           login L C now2 \<lparr>l_email = r_email data, l_password = r_password data\<rparr> s1 = (Inr r2, s2)
           \<and> user r2 = user r
           \<and> verifyAccessToken L C tv (accessToken (tokens r2)) = Inr (payload_of (user r))
           \<and> verifyRefreshToken L C tv (refreshToken (tokens r2)) = Inr (payload_of (user r))
           \<and> payload_of (user r) =
               \<lparr>userId = user_id (user r), p_email = email (user r),
                p_role = role_name (role (user r))\<rparr>"
proof -
  let ?u = "new_row g data (bcrypt_hash L (r_password data) 12 salt)"
  from register_success [OF reg]
  have none: "findUnique_email (users s) (r_email data) = None"
    and r: "user r = omit_password ?u"
    and s1: "users s1 = users s @ [?u]"
    by (simp_all add: store_refresh_def)
  have row: "email ?u = r_email data" "password ?u = bcrypt_hash L (r_password data) 12 salt"
    by (simp_all add: new_row_def)
  with none s1 have found: "findUnique_email (users s1) (r_email data) = Some ?u"
    by (simp add: findUnique_email_def find_append_new)
  have "\<exists>r2 s2.
           login L C now2 \<lparr>l_email = r_email data, l_password = r_password data\<rparr> s1 = (Inr r2, s2)
           \<and> user r2 = user r
           \<and> verifyAccessToken L C tv (accessToken (tokens r2)) = Inr (payload_of (user r))
           \<and> verifyRefreshToken L C tv (refreshToken (tokens r2)) = Inr (payload_of (user r))"
    using found cmp acc ref row
    by (simp add: login_def Let_def r payload_of_omit generateTokens_def verifyAccessToken_def
        verifyRefreshToken_def)
  then show ?thesis
    by (simp add: payload_of_def)
qed

text \<open>
  Ann registers at time 0, logs in at time 5, and the tokens are checked at time 100.
\<close>

theorem register_then_login_witness:
  "\<exists>r2 s2. login demo_lib demo_config 5 ann_login ann_state = (Inr r2, s2)
     \<and> user r2 = omit_password ann_row
     \<and> verifyAccessToken demo_lib demo_config 100 (accessToken (tokens r2)) = Inr ann_payload
     \<and> verifyRefreshToken demo_lib demo_config 100 (refreshToken (tokens r2)) = Inr ann_payload"
proof -
  have cmp: "bcrypt_compare demo_lib (r_password ann)
               (bcrypt_hash demo_lib (r_password ann) 12 ''ab'')"
    by (simp add: demo_defs)
  have p: "payload_of (omit_password ann_row) = ann_payload"
    by (simp add: model_defs demo_defs)
  have acc: "jwt_verify demo_lib (jwt_sign demo_lib ann_payload (jwtSecret demo_config) (15 * 60) 5)
               (jwtSecret demo_config) 100 = Inr ann_payload"
    by (simp add: demo_defs)
  have ref: "jwt_verify demo_lib
               (jwt_sign demo_lib ann_payload (jwtRefreshSecret demo_config) (7 * 24 * 60 * 60) 5)
               (jwtRefreshSecret demo_config) 100 = Inr ann_payload"
    by (simp add: demo_defs)
  have l: "\<lparr>l_email = r_email ann, l_password = r_password ann\<rparr> = ann_login"
    by (simp add: demo_defs)
  from register_then_login [OF ann_register cmp, of 5 100] acc ref
  show ?thesis
    unfolding auth_result.simps p l by blast
qed

text \<open>
  C3. Every slot that the slot generation produces lies within the opening hours, is as long
  as the service lasts, starts a whole number of granularity steps after the opening time, and
  overlaps none of the existing bookings, whatever their order.
\<close>

theorem slots_within_hours_and_free:
  "sl \<in> set (generate_slots g openTime closeTime duration bookings) \<Longrightarrow>
     openTime \<le> slot_start sl \<and> slot_end sl \<le> closeTime
     \<and> slot_end sl - slot_start sl = duration \<and> g dvd (slot_start sl - openTime)
     \<and> (\<forall>b \<in> set bookings. \<not> overlaps sl b)"
proof -
  assume a: "sl \<in> set (generate_slots g openTime closeTime duration bookings)"
  have s: "by_start (sort_key b_start bookings)"
    using sorted_sort_key [of b_start bookings] by (simp add: sorted_map)
  from a scan_shape [where sl = sl and g = g and d = duration and close = closeTime and t = openTime
      and bs = "sort_key b_start bookings"]
  have shape: "openTime \<le> slot_start sl \<and> slot_end sl \<le> closeTime
     \<and> slot_end sl - slot_start sl = duration \<and> g dvd (slot_start sl - openTime)"
    by (simp add: generate_slots_def)
  from a scan_free [OF s, where sl = sl and g = g and d = duration and close = closeTime and t = openTime]
  have "\<forall>b \<in> set bookings. \<not> overlaps sl b"
    by (simp add: generate_slots_def)
  with shape show ?thesis by blast
qed

text \<open>
  A shop open from 9:00 to 12:00, a service of 45 minutes, steps of 30 minutes and bookings
  from 10:00 to 10:45 and from 9:00 to 9:20: the only free slot is 11:00 to 11:45.
\<close>

theorem slots_within_hours_and_free_witness:
  "generate_slots 30 540 720 45 demo_bookings = [\<lparr>slot_start = 660, slot_end = 705\<rparr>]
   \<and> (540::nat) \<le> 660 \<and> (705::nat) \<le> 720 \<and> (705::nat) - 660 = 45 \<and> (30::nat) dvd 660 - 540
   \<and> \<not> overlaps \<lparr>slot_start = 660, slot_end = 705\<rparr> \<lparr>b_start = 600, b_end = 645\<rparr>
   \<and> \<not> overlaps \<lparr>slot_start = 660, slot_end = 705\<rparr> \<lparr>b_start = 540, b_end = 560\<rparr>"
proof -
  have m: "\<lparr>slot_start = 660, slot_end = 705\<rparr> \<in> set (generate_slots 30 540 720 45 demo_bookings)"
    by (simp add: demo_slots)
  from slots_within_hours_and_free [OF m] demo_slots show ?thesis
    by (simp add: demo_bookings_def)
qed

text \<open>
  C4. \<open>errorHandler\<close> answers an error named \<open>ValidationError\<close> with status 400 and the message
  \<open>Validation error\<close>, one named \<open>UnauthorizedError\<close> with 401 and \<open>Unauthorized\<close>, one named
  \<open>PrismaClientKnownRequestError\<close> with 400 and \<open>Database error\<close>, and every other error with
  500 and \<open>Internal server error\<close>; the body always has a \<open>message\<close> field.
\<close>

theorem errorHandler_mapping:
  "status (errorHandler env e) =
     (if name e = ''ValidationError'' then 400
      else if name e = ''UnauthorizedError'' then 401
      else if name e = ''PrismaClientKnownRequestError'' then 400
      else 500)
   \<and> map_of (json_body (errorHandler env e)) ''message'' =
     Some (JStr (if name e = ''ValidationError'' then ''Validation error''
      else if name e = ''UnauthorizedError'' then ''Unauthorized''
      else if name e = ''PrismaClientKnownRequestError'' then ''Database error''
      else ''Internal server error''))"
  by (simp add: errorHandler_def)

text \<open>
  An error of jsonwebtoken, which the handler does not know, and a validation error.
\<close>

theorem errorHandler_mapping_witness:
  "status (errorHandler None \<lparr>name = ''TokenExpiredError'', message = ''jwt expired''\<rparr>) = 500
   \<and> map_of (json_body (errorHandler None \<lparr>name = ''TokenExpiredError'', message = ''jwt expired''\<rparr>))
        ''message'' = Some (JStr ''Internal server error'')
   \<and> status (errorHandler (Some ''development'') \<lparr>name = ''ValidationError'', message = ''x''\<rparr>) = 400"
  using errorHandler_mapping [of None "\<lparr>name = ''TokenExpiredError'', message = ''jwt expired''\<rparr>"]
    errorHandler_mapping [of "Some ''development''" "\<lparr>name = ''ValidationError'', message = ''x''\<rparr>"]
  by simp

text \<open>
  C5 (amended). In a state where every refresh token in Redis belongs to a user of the table
  (every state the service reaches), and with a jsonwebtoken that rejects the empty string,
  the refresh handler issues tokens if and only if the body holds a string \<open>refreshToken\<close>
  that verifies under the refresh secret and equals the token stored under
  \<open>refresh_token:<userId>\<close> for the decoded user id. A missing \<open>refreshToken\<close> is answered
  with status 400. A token that verifies and is not the stored one (nothing is stored, or
  another token) is answered with status 403. A non-empty string token that does not verify
  is not answered with 403: the error of the verification is handed to the error middleware.
  All three leave the state as it was. When the tokens are issued, they are the freshly
  signed pair of the user, and the refresh token of the pair is stored.
\<close>

theorem refresh_issues_tokens_iff:
  assumes inv: "tokens_have_users s"
    and empty: "isl (jwt_verify L [] (jwtRefreshSecret C) now)"
  shows "(issues_tokens (fst (controller_refreshToken L C now body s)) \<longleftrightarrow>
            (\<exists>tok p. body ''refreshToken'' = Some (JStr tok)
               \<and> verifyRefreshToken L C now tok = Inr p
               \<and> redis_get (redis_store s) (refresh_key (userId p)) = Some tok))
       \<and> (body ''refreshToken'' = None \<longrightarrow>
            controller_refreshToken L C now body s =
              (Responded \<lparr>status = 400,
                 json_body = [(''message'', JStr ''Refresh token required'')]\<rparr>, s))
       \<and> (\<forall>tok p. body ''refreshToken'' = Some (JStr tok)
               \<and> verifyRefreshToken L C now tok = Inr p
               \<and> redis_get (redis_store s) (refresh_key (userId p)) \<noteq> Some tok \<longrightarrow>
            controller_refreshToken L C now body s =
              (Responded \<lparr>status = 403,
                 json_body = [(''message'', JStr ''Invalid refresh token'')]\<rparr>, s))
       \<and> (\<forall>tok p. body ''refreshToken'' = Some (JStr tok)
               \<and> verifyRefreshToken L C now tok = Inr p
               \<and> redis_get (redis_store s) (refresh_key (userId p)) = Some tok \<longrightarrow>
            (\<exists>u. findUnique_id (users s) (userId p) = Some u
               \<and> controller_refreshToken L C now body s =
                   (Responded \<lparr>status = 200,
                      json_body = [(''message'', JStr ''Tokens refreshed successfully''),
                                   (''tokens'', tokens_json (generateTokens L C now (payload_of u)))]\<rparr>,
                    store_refresh s (userId p) (generateTokens L C now (payload_of u)))))
       \<and> (\<forall>tok e. body ''refreshToken'' = Some (JStr tok) \<and> tok \<noteq> []
               \<and> verifyRefreshToken L C now tok = Inl e \<longrightarrow>
            controller_refreshToken L C now body s = (Next e, s)
            \<and> status (respond C (fst (controller_refreshToken L C now body s))) =
                status (errorHandler (nodeEnv C) e))"
proof -
  have unverified: "controller_refreshToken L C now body s = (Next e, s)
            \<and> status (respond C (fst (controller_refreshToken L C now body s))) =
                status (errorHandler (nodeEnv C) e)"
    if b: "body ''refreshToken'' = Some (JStr tok)" and ne: "tok \<noteq> []"
      and v: "verifyRefreshToken L C now tok = Inl e" for tok e
    using v by (simp add: controller_string [where body = body, OF b ne] respond_def)
  have verified_nonempty: "tok \<noteq> []" if "verifyRefreshToken L C now tok = Inr p" for tok p
    using that empty by (auto simp: verifyRefreshToken_def)
  have ok: "\<exists>u. findUnique_id (users s) (userId p) = Some u
               \<and> controller_refreshToken L C now body s =
                   (Responded \<lparr>status = 200,
                      json_body = [(''message'', JStr ''Tokens refreshed successfully''),
                                   (''tokens'', tokens_json (generateTokens L C now (payload_of u)))]\<rparr>,
                    store_refresh s (userId p) (generateTokens L C now (payload_of u)))"
    if b: "body ''refreshToken'' = Some (JStr tok)"
      and v: "verifyRefreshToken L C now tok = Inr p"
      and r: "redis_get (redis_store s) (refresh_key (userId p)) = Some tok" for tok p
  proof -
    from inv_found [OF inv r] obtain u where u: "findUnique_id (users s) (userId p) = Some u" ..
    show ?thesis
      using u v r
      by (simp add: controller_string [where body = body, OF b verified_nonempty [OF v]] refreshTokens_found [OF u])
  qed
  have denied: "controller_refreshToken L C now body s =
              (Responded \<lparr>status = 403,
                 json_body = [(''message'', JStr ''Invalid refresh token'')]\<rparr>, s)"
    if b: "body ''refreshToken'' = Some (JStr tok)"
      and v: "verifyRefreshToken L C now tok = Inr p"
      and r: "redis_get (redis_store s) (refresh_key (userId p)) \<noteq> Some tok" for tok p
    using v r by (simp add: controller_string [where body = body, OF b verified_nonempty [OF v]])
  have missing: "body ''refreshToken'' = None \<longrightarrow>
            controller_refreshToken L C now body s =
              (Responded \<lparr>status = 400,
                 json_body = [(''message'', JStr ''Refresh token required'')]\<rparr>, s)"
    by (simp add: controller_falsy falsy_def)
  have iff: "issues_tokens (fst (controller_refreshToken L C now body s)) \<longleftrightarrow>
            (\<exists>tok p. body ''refreshToken'' = Some (JStr tok)
               \<and> verifyRefreshToken L C now tok = Inr p
               \<and> redis_get (redis_store s) (refresh_key (userId p)) = Some tok)"
  proof
    assume "\<exists>tok p. body ''refreshToken'' = Some (JStr tok)
               \<and> verifyRefreshToken L C now tok = Inr p
               \<and> redis_get (redis_store s) (refresh_key (userId p)) = Some tok"
    then obtain tok p where "body ''refreshToken'' = Some (JStr tok)"
      "verifyRefreshToken L C now tok = Inr p"
      "redis_get (redis_store s) (refresh_key (userId p)) = Some tok"
      by blast
    from ok [OF this] show "issues_tokens (fst (controller_refreshToken L C now body s))"
      by (auto simp: issues_tokens_def)
  next
    assume issued: "issues_tokens (fst (controller_refreshToken L C now body s))"
    show "\<exists>tok p. body ''refreshToken'' = Some (JStr tok)
               \<and> verifyRefreshToken L C now tok = Inr p
               \<and> redis_get (redis_store s) (refresh_key (userId p)) = Some tok"
    proof (cases "falsy (body ''refreshToken'')")
      case True
      with issued show ?thesis
        by (simp add: controller_falsy issues_tokens_def)
    next
      case nf: False
      show ?thesis
      proof (cases "\<exists>tok. body ''refreshToken'' = Some (JStr tok)")
        case False
        with nf issued show ?thesis
          by (simp add: controller_other issues_tokens_def)
      next
        case True
        then obtain tok where b: "body ''refreshToken'' = Some (JStr tok)" ..
        with nf have ne: "tok \<noteq> []"
          by (simp add: falsy_def)
        show ?thesis
        proof (cases "verifyRefreshToken L C now tok")
          case (Inl e)
          with issued show ?thesis
            by (simp add: controller_string [where body = body, OF b ne] issues_tokens_def)
        next
          case (Inr p)
          show ?thesis
          proof (cases "redis_get (redis_store s) (refresh_key (userId p)) = Some tok")
            case True
            with b Inr show ?thesis by blast
          next
            case False
            from denied [OF b Inr False] issued show ?thesis
              by (simp add: issues_tokens_def)
          qed
        qed
      qed
    qed
  qed
  have first: "(issues_tokens (fst (controller_refreshToken L C now body s)) \<longleftrightarrow>
            (\<exists>tok p. body ''refreshToken'' = Some (JStr tok)
               \<and> verifyRefreshToken L C now tok = Inr p
               \<and> redis_get (redis_store s) (refresh_key (userId p)) = Some tok))
       \<and> (body ''refreshToken'' = None \<longrightarrow>
            controller_refreshToken L C now body s =
              (Responded \<lparr>status = 400,
                 json_body = [(''message'', JStr ''Refresh token required'')]\<rparr>, s))
       \<and> (\<forall>tok p. body ''refreshToken'' = Some (JStr tok)
               \<and> verifyRefreshToken L C now tok = Inr p
               \<and> redis_get (redis_store s) (refresh_key (userId p)) \<noteq> Some tok \<longrightarrow>
            controller_refreshToken L C now body s =
              (Responded \<lparr>status = 403,
                 json_body = [(''message'', JStr ''Invalid refresh token'')]\<rparr>, s))"
    using iff missing denied by blast
  have fourth: "\<forall>tok p. body ''refreshToken'' = Some (JStr tok)
               \<and> verifyRefreshToken L C now tok = Inr p
               \<and> redis_get (redis_store s) (refresh_key (userId p)) = Some tok \<longrightarrow>
            (\<exists>u. findUnique_id (users s) (userId p) = Some u
               \<and> controller_refreshToken L C now body s =
                   (Responded \<lparr>status = 200,
                      json_body = [(''message'', JStr ''Tokens refreshed successfully''),
                                   (''tokens'', tokens_json (generateTokens L C now (payload_of u)))]\<rparr>,
                    store_refresh s (userId p) (generateTokens L C now (payload_of u))))"
    using ok by blast
  have fifth: "\<forall>tok e. body ''refreshToken'' = Some (JStr tok) \<and> tok \<noteq> []
               \<and> verifyRefreshToken L C now tok = Inl e \<longrightarrow>
            controller_refreshToken L C now body s = (Next e, s)
            \<and> status (respond C (fst (controller_refreshToken L C now body s))) =
                status (errorHandler (nodeEnv C) e)"
    using unverified by blast
  from first fourth fifth show ?thesis
    by (simp only: conj_assoc) blast
qed

text \<open>
  Ann's refresh token is accepted while it is stored; a body without the field is answered with
  400; after her logout the same token is answered with 403; a string that is no token is
  handed on with the error of the verification.
\<close>

theorem refresh_issues_tokens_iff_witness:
  "issues_tokens (fst (controller_refreshToken demo_lib demo_config 5 ann_refresh_body ann_state))
   \<and> controller_refreshToken demo_lib demo_config 5 Map.empty ann_state =
       (Responded \<lparr>status = 400, json_body = [(''message'', JStr ''Refresh token required'')]\<rparr>,
        ann_state)
   \<and> controller_refreshToken demo_lib demo_config 5 ann_refresh_body (logout ''u1'' ann_state) =
       (Responded \<lparr>status = 403, json_body = [(''message'', JStr ''Invalid refresh token'')]\<rparr>,
        logout ''u1'' ann_state)
   \<and> controller_refreshToken demo_lib demo_config 5 [''refreshToken'' \<mapsto> JStr ''no-token'']
        ann_state =
       (Next \<lparr>name = ''JsonWebTokenError'', message = ''jwt malformed''\<rparr>, ann_state)"
proof -
  have e: "isl (jwt_verify demo_lib [] (jwtRefreshSecret demo_config) 5)"
    by (simp add: demo_defs)
  have bad: "[''refreshToken'' \<mapsto> JStr ''no-token''] ''refreshToken'' = Some (JStr ''no-token'')
      \<and> ''no-token'' \<noteq> []
      \<and> verifyRefreshToken demo_lib demo_config 5 ''no-token'' =
          Inl \<lparr>name = ''JsonWebTokenError'', message = ''jwt malformed''\<rparr>"
    by (simp add: verifyRefreshToken_def demo_defs)
  note t4 = refresh_issues_tokens_iff [OF ann_has_users e,
      where body = "[''refreshToken'' \<mapsto> JStr ''no-token'']"]
  from t4 [THEN conjunct2, THEN conjunct2, THEN conjunct2, THEN conjunct2, THEN spec, THEN spec,
      THEN mp, OF bad]
  have 4: "controller_refreshToken demo_lib demo_config 5 [''refreshToken'' \<mapsto> JStr ''no-token'']
        ann_state =
       (Next \<lparr>name = ''JsonWebTokenError'', message = ''jwt malformed''\<rparr>, ann_state)"
    by blast
  have v: "verifyRefreshToken demo_lib demo_config 5 (refreshToken ann_tokens) = Inr ann_payload"
    by (simp add: verifyRefreshToken_def demo_defs)
  have b: "ann_refresh_body ''refreshToken'' = Some (JStr (refreshToken ann_tokens))"
    by (simp add: ann_refresh_body_def)
  have stored: "redis_get (redis_store ann_state) (refresh_key (userId ann_payload))
      = Some (refreshToken ann_tokens)"
    by (simp add: redis_get_def ann_redis refresh_key_def ann_payload_def)
  have gone: "redis_get (redis_store (logout ''u1'' ann_state)) (refresh_key (userId ann_payload))
      \<noteq> Some (refreshToken ann_tokens)"
    by (simp add: redis_get_def ann_logged_out)
  note t1 = refresh_issues_tokens_iff [OF ann_has_users e, where body = ann_refresh_body]
  note t2 = refresh_issues_tokens_iff [OF ann_has_users e, where body = Map.empty]
  note t3 = refresh_issues_tokens_iff [OF ann_logged_out_has_users e, where body = ann_refresh_body]
  have 1: "issues_tokens (fst (controller_refreshToken demo_lib demo_config 5 ann_refresh_body ann_state))"
    using t1 [THEN conjunct1] b v stored by blast
  have 2: "controller_refreshToken demo_lib demo_config 5 Map.empty ann_state =
       (Responded \<lparr>status = 400, json_body = [(''message'', JStr ''Refresh token required'')]\<rparr>,
        ann_state)"
    using t2 [THEN conjunct2, THEN conjunct1] by simp
  have 3: "controller_refreshToken demo_lib demo_config 5 ann_refresh_body (logout ''u1'' ann_state) =
       (Responded \<lparr>status = 403, json_body = [(''message'', JStr ''Invalid refresh token'')]\<rparr>,
        logout ''u1'' ann_state)"
    using t3 [THEN conjunct2, THEN conjunct2, THEN conjunct1] b v gone by blast
  from 1 2 3 4 show ?thesis by blast
qed

text \<open>
  The claim as stated fails for a token that does not verify: in Ann's state, where the
  library rejects the empty string and the stored token belongs to her row, the string
  \<open>no-token\<close> is different from the stored value and stored under no key, and the request
  is not answered with 403: \<open>jwt.verify\<close> throws before Redis is read, and the error
  middleware answers 500.
\<close>

theorem refresh_unverified_token_counterexample:
  "tokens_have_users ann_state
   \<and> isl (jwt_verify demo_lib [] (jwtRefreshSecret demo_config) 5)
   \<and> redis_store ann_state =
       [''refresh_token:u1'' \<mapsto> \<lparr>val = refreshToken ann_tokens, ex = 604800\<rparr>]
   \<and> refreshToken ann_tokens \<noteq> ''no-token''
   \<and> controller_refreshToken demo_lib demo_config 5 [''refreshToken'' \<mapsto> JStr ''no-token'']
        ann_state =
       (Next \<lparr>name = ''JsonWebTokenError'', message = ''jwt malformed''\<rparr>, ann_state)
   \<and> status (respond demo_config (fst (controller_refreshToken demo_lib demo_config 5
        [''refreshToken'' \<mapsto> JStr ''no-token''] ann_state))) = 500"
  by (simp add: ann_has_users ann_redis controller_refreshToken_def respond_def errorHandler_def
      falsy_def verify_body_token_def verifyRefreshToken_def demo_defs)

text \<open>
  C6. The row that \<open>register\<close> adds holds \<open>bcrypt.hash(password, 12)\<close> as its password, and the
  result and the state of \<open>register\<close> depend on the password through that hash only: another
  password with the same hash gives the same result and the same state. \<open>login\<close> succeeds
  only if \<open>bcrypt.compare\<close> accepts the supplied password against the stored hash.
\<close>

theorem password_is_hashed:
  "(register L C salt g now data s = (Inr r, s1) \<longrightarrow>
      (\<exists>u. users s1 = users s @ [u] \<and> password u = bcrypt_hash L (r_password data) 12 salt)
      \<and> (\<forall>pw. bcrypt_hash L pw 12 salt = bcrypt_hash L (r_password data) 12 salt
            \<longrightarrow> register L C salt g now (data\<lparr>r_password := pw\<rparr>) s = (Inr r, s1)))
   \<and> (login L C now d s = (Inr r', s') \<longrightarrow>
      (\<exists>u. findUnique_email (users s) (l_email d) = Some u
           \<and> bcrypt_compare L (l_password d) (password u)))"
proof (intro conjI impI allI)
  assume reg: "register L C salt g now data s = (Inr r, s1)"
  from register_success [OF reg]
  show "\<exists>u. users s1 = users s @ [u] \<and> password u = bcrypt_hash L (r_password data) 12 salt"
    by (simp add: store_refresh_def new_row_def)
next
  fix pw
  assume reg: "register L C salt g now data s = (Inr r, s1)"
    and same: "bcrypt_hash L pw 12 salt = bcrypt_hash L (r_password data) 12 salt"
  have "register L C salt g now (data\<lparr>r_password := pw\<rparr>) s = register L C salt g now data s"
    by (simp add: register_def new_row_def same Let_def split: option.splits)
  with reg show "register L C salt g now (data\<lparr>r_password := pw\<rparr>) s = (Inr r, s1)"
    by simp
next
  assume "login L C now d s = (Inr r', s')"
  from login_success [OF this]
  show "\<exists>u. findUnique_email (users s) (l_email d) = Some u
           \<and> bcrypt_compare L (l_password d) (password u)"
    by blast
qed

text \<open>
  Ann's registration and her login.
\<close>

theorem password_is_hashed_witness:
  "(\<exists>u. users ann_state = users empty_state @ [u] \<and> password u = demo_hash ''secret12'' 12 ''ab'')
   \<and> register demo_lib demo_config ''ab'' demo_generated 0 (ann\<lparr>r_password := ''secret12''\<rparr>)
        empty_state = (Inr \<lparr>user = omit_password ann_row, tokens = ann_tokens\<rparr>, ann_state)
   \<and> (\<exists>u. findUnique_email (users ann_state) ''ann@x.org'' = Some u
        \<and> demo_compare ''secret12'' (password u))"
proof -
  note t = password_is_hashed [where L = demo_lib and C = demo_config and salt = "''ab''"
      and g = demo_generated and data = ann and s = empty_state and ?s1.0 = ann_state
      and r = "\<lparr>user = omit_password ann_row, tokens = ann_tokens\<rparr>"]
  note r = t [where now = 0, THEN conjunct1, THEN mp, OF ann_register]
  have same: "bcrypt_hash demo_lib ''secret12'' 12 ''ab'' = bcrypt_hash demo_lib (r_password ann) 12 ''ab''"
    by (simp add: ann_def)
  from r [THEN conjunct1]
  have 1: "\<exists>u. users ann_state = users empty_state @ [u] \<and> password u = demo_hash ''secret12'' 12 ''ab''"
    by (simp add: demo_lib_def ann_def)
  from r [THEN conjunct2, THEN spec, THEN mp, OF same]
  have 2: "register demo_lib demo_config ''ab'' demo_generated 0 (ann\<lparr>r_password := ''secret12''\<rparr>)
        empty_state = (Inr \<lparr>user = omit_password ann_row, tokens = ann_tokens\<rparr>, ann_state)" .
  from password_is_hashed [where L = demo_lib and C = demo_config and now = 5 and d = ann_login
      and s = ann_state, THEN conjunct2, THEN mp, OF ann_login_success]
  have 3: "\<exists>u. findUnique_email (users ann_state) ''ann@x.org'' = Some u
        \<and> demo_compare ''secret12'' (password u)"
    by (simp add: demo_lib_def ann_login_def)
  from 1 2 3 show ?thesis by blast
qed




text \<open>
  C8 (amended). After \<open>logout\<close> the key \<open>refresh_token:<userId>\<close> is absent from Redis. While
  it is absent, a refresh request that presents a non-empty string token of that user issues
  no tokens: it is answered with status 403 if the token verifies under the refresh secret,
  and otherwise the error of the verification is handed to the error middleware, whose
  status for that error is the answer. The state stays as it was. The key stays absent until
  an operation issues a token to that user.
\<close>

theorem logout_blocks_refresh:
  "redis_store (logout i s) (refresh_key i) = None
   \<and> (redis_store s0 (refresh_key i) = None \<and> body ''refreshToken'' = Some (JStr tok) \<and> tok \<noteq> []
        \<and> (\<forall>p. verifyRefreshToken L C now tok = Inr p \<longrightarrow> userId p = i) \<longrightarrow>
      controller_refreshToken L C now body s0 =
        ((case verifyRefreshToken L C now tok of
            Inl e \<Rightarrow> Next e
          | Inr p \<Rightarrow> Responded \<lparr>status = 403,
                       json_body = [(''message'', JStr ''Invalid refresh token'')]\<rparr>), s0)
      \<and> \<not> issues_tokens (fst (controller_refreshToken L C now body s0))
      \<and> status (respond C (fst (controller_refreshToken L C now body s0))) =
          (case verifyRefreshToken L C now tok of
             Inl e \<Rightarrow> status (errorHandler (nodeEnv C) e)
           | Inr p \<Rightarrow> 403))
   \<and> (redis_store s0 (refresh_key i) = None \<and> run_op L C op s0 = (issued, s1)
        \<and> (\<forall>t. issued \<noteq> Some (i, t)) \<longrightarrow>
      redis_store s1 (refresh_key i) = None)"
proof (intro conjI impI)
  show "redis_store (logout i s) (refresh_key i) = None"
    by (simp add: redis_store_logout)
next
  assume a: "redis_store s0 (refresh_key i) = None \<and> body ''refreshToken'' = Some (JStr tok)
      \<and> tok \<noteq> [] \<and> (\<forall>p. verifyRefreshToken L C now tok = Inr p \<longrightarrow> userId p = i)"
  then have b: "body ''refreshToken'' = Some (JStr tok)" and ne: "tok \<noteq> []" by simp_all
  from a have result: "controller_refreshToken L C now body s0 =
        ((case verifyRefreshToken L C now tok of
            Inl e \<Rightarrow> Next e
          | Inr p \<Rightarrow> Responded \<lparr>status = 403,
                       json_body = [(''message'', JStr ''Invalid refresh token'')]\<rparr>), s0)"
    by (cases "verifyRefreshToken L C now tok")
      (simp_all add: controller_string [where body = body, OF b ne] redis_get_def)
  then show "controller_refreshToken L C now body s0 =
        ((case verifyRefreshToken L C now tok of
            Inl e \<Rightarrow> Next e
          | Inr p \<Rightarrow> Responded \<lparr>status = 403,
                       json_body = [(''message'', JStr ''Invalid refresh token'')]\<rparr>), s0)" .
  show "\<not> issues_tokens (fst (controller_refreshToken L C now body s0))"
    unfolding result
    by (cases "verifyRefreshToken L C now tok") (simp_all add: issues_tokens_def)
  show "status (respond C (fst (controller_refreshToken L C now body s0))) =
          (case verifyRefreshToken L C now tok of
             Inl e \<Rightarrow> status (errorHandler (nodeEnv C) e)
           | Inr p \<Rightarrow> 403)"
    unfolding result
    by (cases "verifyRefreshToken L C now tok") (simp_all add: respond_def)
next
  assume "redis_store s0 (refresh_key i) = None \<and> run_op L C op s0 = (issued, s1)
        \<and> (\<forall>t. issued \<noteq> Some (i, t))"
  then show "redis_store s1 (refresh_key i) = None"
    using absent_stays_absent by blast
qed

text \<open>
  Ann's token, presented at time 5 after her logout; another user's logout in between.
\<close>

theorem logout_blocks_refresh_witness:
  "redis_store (logout ''u1'' ann_state) (refresh_key ''u1'') = None
   \<and> controller_refreshToken demo_lib demo_config 5 ann_refresh_body (logout ''u1'' ann_state) =
       (Responded \<lparr>status = 403, json_body = [(''message'', JStr ''Invalid refresh token'')]\<rparr>,
        logout ''u1'' ann_state)
   \<and> status (respond demo_config (fst (controller_refreshToken demo_lib demo_config 5
        ann_refresh_body (logout ''u1'' ann_state)))) = 403
   \<and> redis_store (snd (run_op demo_lib demo_config (Logout ''u2'') (logout ''u1'' ann_state)))
        (refresh_key ''u1'') = None"
proof -
  let ?s0 = "logout ''u1'' ann_state"
  have v: "verifyRefreshToken demo_lib demo_config 5 (refreshToken ann_tokens) = Inr ann_payload"
    by (simp add: verifyRefreshToken_def demo_defs)
  have h1: "redis_store ?s0 (refresh_key ''u1'') = None
      \<and> ann_refresh_body ''refreshToken'' = Some (JStr (refreshToken ann_tokens))
      \<and> refreshToken ann_tokens \<noteq> []
      \<and> (\<forall>p. verifyRefreshToken demo_lib demo_config 5 (refreshToken ann_tokens) = Inr p
            \<longrightarrow> userId p = ''u1'')"
    by (simp add: v ann_logged_out ann_refresh_body_def) (simp add: demo_defs)
  have h2: "redis_store ?s0 (refresh_key ''u1'') = None
      \<and> run_op demo_lib demo_config (Logout ''u2'') ?s0 = (None, logout ''u2'' ?s0)
      \<and> (\<forall>t. None \<noteq> Some (''u1'', t))"
    by (simp add: ann_logged_out run_op_def)
  note t = logout_blocks_refresh [where i = "''u1''" and s = ann_state and ?s0.0 = ?s0
      and L = demo_lib and C = demo_config and now = 5 and body = ann_refresh_body
      and tok = "refreshToken ann_tokens" and op = "Logout ''u2''" and issued = None
      and ?s1.0 = "logout ''u2'' ?s0"]
  from t [THEN conjunct1] t [THEN conjunct2, THEN conjunct1, THEN mp, OF h1]
    t [THEN conjunct2, THEN conjunct2, THEN mp, OF h2]
  show ?thesis
    by (simp add: v run_op_def respond_def)
qed

text \<open>
  The claim as stated fails once the token has expired: Ann's refresh token, issued at time
  0, verifies until 604799 and is stored in Redis; presented at time 604800 after her logout,
  it makes \<open>jwt.verify\<close> throw \<open>TokenExpiredError\<close>, and the error middleware answers 500.
\<close>

theorem logout_refresh_expired_counterexample:
  "redis_get (redis_store ann_state) (refresh_key ''u1'') = Some (refreshToken ann_tokens)
   \<and> verifyRefreshToken demo_lib demo_config 604799 (refreshToken ann_tokens) = Inr ann_payload
   \<and> status (respond demo_config (fst (controller_refreshToken demo_lib demo_config 604800
        ann_refresh_body (logout ''u1'' ann_state)))) = 500"
  by (simp add: ann_redis ann_logged_out controller_refreshToken_def respond_def errorHandler_def
      falsy_def verify_body_token_def redis_get_def refresh_key_def verifyRefreshToken_def
      ann_refresh_body_def demo_defs)

text \<open>
  C9. \<open>login\<close> throws \<open>Error('Invalid credentials')\<close> when no user has the email, and the same
  error when the user exists and the password does not match; whenever \<open>login\<close> throws, this
  is the error, so the error does not tell the two cases apart. The state is left as it was.
\<close>

theorem login_invalid_credentials:
  "(findUnique_email (users s) (l_email data) = None
      \<longrightarrow> login L C now data s = (Inl \<lparr>name = ''Error'', message = ''Invalid credentials''\<rparr>, s))
   \<and> (findUnique_email (users s) (l_email data) = Some u
        \<and> \<not> bcrypt_compare L (l_password data) (password u)
      \<longrightarrow> login L C now data s = (Inl \<lparr>name = ''Error'', message = ''Invalid credentials''\<rparr>, s))
   \<and> (\<forall>e. fst (login L C now data s) = Inl e
      \<longrightarrow> e = \<lparr>name = ''Error'', message = ''Invalid credentials''\<rparr>)"
  by (auto simp: login_def Error_def Let_def split: option.splits if_splits)

text \<open>
  An unknown email, and Ann's email with a wrong password.
\<close>

theorem login_invalid_credentials_witness:
  "login demo_lib demo_config 5 \<lparr>l_email = ''bob@x.org'', l_password = ''secret12''\<rparr> ann_state =
     (Inl \<lparr>name = ''Error'', message = ''Invalid credentials''\<rparr>, ann_state)
   \<and> login demo_lib demo_config 5 \<lparr>l_email = ''ann@x.org'', l_password = ''guess''\<rparr> ann_state =
     (Inl \<lparr>name = ''Error'', message = ''Invalid credentials''\<rparr>, ann_state)"
proof -
  let ?bob = "\<lparr>l_email = ''bob@x.org'', l_password = ''secret12''\<rparr>"
  let ?ann = "\<lparr>l_email = ''ann@x.org'', l_password = ''guess''\<rparr>"
  have unknown: "findUnique_email (users ann_state) (l_email ?bob) = None"
    by (simp add: ann_users findUnique_email_def demo_defs)
  have wrong: "findUnique_email (users ann_state) (l_email ?ann) = Some ann_row
      \<and> \<not> bcrypt_compare demo_lib (l_password ?ann) (password ann_row)"
    by (simp add: ann_users findUnique_email_def demo_defs)
  from login_invalid_credentials [where s = ann_state and data = ?bob, THEN conjunct1, THEN mp,
      OF unknown]
    login_invalid_credentials [where s = ann_state and data = ?ann and u = ann_row,
      THEN conjunct2, THEN conjunct1, THEN mp, OF wrong]
  show ?thesis by simp
qed

text \<open>
  C10. The user that \<open>register\<close>, \<open>login\<close> and \<open>getProfile\<close> return is a row of the table
  without its password: every other field is the row's, and the value does not change with
  the password of the row. The whole result of \<open>register\<close>, \<open>login\<close> and \<open>refreshTokens\<close>,
  tokens included, is computed from the row without its password.
\<close>

theorem returned_user_omits_password:
  "(register L C salt g now data s = (Inr r, s1) \<longrightarrow>
      (\<exists>u \<in> set (users s1). r = \<lparr>user = omit_password u,
          tokens = generateTokens L C now (payload_of (omit_password u))\<rparr>))
   \<and> (login L C now d s = (Inr r, s1) \<longrightarrow>
      (\<exists>u \<in> set (users s). r = \<lparr>user = omit_password u,
          tokens = generateTokens L C now (payload_of (omit_password u))\<rparr>))
   \<and> (getProfile i s = Some v \<longrightarrow> (\<exists>u \<in> set (users s). v = omit_password u))
   \<and> (refreshTokens L C now i s = (Inr t, s1) \<longrightarrow>
      (\<exists>u \<in> set (users s). t = generateTokens L C now (payload_of (omit_password u))))
   \<and> omit_password (u\<lparr>password := h\<rparr>) = omit_password u
   \<and> user_id (omit_password u) = user_id u \<and> email (omit_password u) = email u
   \<and> firstName (omit_password u) = firstName u \<and> lastName (omit_password u) = lastName u
   \<and> phone (omit_password u) = phone u \<and> role (omit_password u) = role u
   \<and> emailVerified (omit_password u) = emailVerified u
   \<and> createdAt (omit_password u) = createdAt u \<and> updatedAt (omit_password u) = updatedAt u"
proof -
  have refr: "refreshTokens L C now i s = (Inr t, s1) \<longrightarrow>
      (\<exists>u \<in> set (users s). t = generateTokens L C now (payload_of (omit_password u)))"
  proof
    assume a: "refreshTokens L C now i s = (Inr t, s1)"
    then obtain u where f: "findUnique_id (users s) i = Some u"
      by (cases "findUnique_id (users s) i") (auto simp: refreshTokens_def)
    from refreshTokens_found [OF f, of L C now] a
    have "t = generateTokens L C now (payload_of (omit_password u))"
      by (simp add: payload_of_omit)
    with findUnique_id_Some [OF f]
    show "\<exists>u \<in> set (users s). t = generateTokens L C now (payload_of (omit_password u))"
      by blast
  qed
  have reg: "register L C salt g now data s = (Inr r, s1) \<longrightarrow>
      (\<exists>u \<in> set (users s1). r = \<lparr>user = omit_password u,
          tokens = generateTokens L C now (payload_of (omit_password u))\<rparr>)"
  proof
    assume a: "register L C salt g now data s = (Inr r, s1)"
    let ?u = "new_row g data (bcrypt_hash L (r_password data) 12 salt)"
    from register_success [OF a]
    have r: "r = \<lparr>user = omit_password ?u, tokens = generateTokens L C now (payload_of ?u)\<rparr>"
      and s1: "s1 = store_refresh (s\<lparr>users := users s @ [?u]\<rparr>) (gen_id g) (tokens r)"
      by blast+
    from s1 have "?u \<in> set (users s1)"
      by (simp add: store_refresh_def)
    with r show "\<exists>u \<in> set (users s1). r = \<lparr>user = omit_password u,
          tokens = generateTokens L C now (payload_of (omit_password u))\<rparr>"
      unfolding payload_of_omit by blast
  qed
  have log: "login L C now d s = (Inr r, s1) \<longrightarrow>
      (\<exists>u \<in> set (users s). r = \<lparr>user = omit_password u,
          tokens = generateTokens L C now (payload_of (omit_password u))\<rparr>)"
  proof
    assume a: "login L C now d s = (Inr r, s1)"
    from login_success [OF a] obtain u where
      f: "findUnique_email (users s) (l_email d) = Some u" and
      r: "r = \<lparr>user = omit_password u, tokens = generateTokens L C now (payload_of u)\<rparr>"
      by blast
    from findUnique_email_Some [OF f] have "u \<in> set (users s)" by blast
    with r show "\<exists>u \<in> set (users s). r = \<lparr>user = omit_password u,
          tokens = generateTokens L C now (payload_of (omit_password u))\<rparr>"
      unfolding payload_of_omit by blast
  qed
  have prof: "getProfile i s = Some v \<longrightarrow> (\<exists>u \<in> set (users s). v = omit_password u)"
  proof
    assume a: "getProfile i s = Some v"
    then obtain u where f: "findUnique_id (users s) i = Some u" and v: "v = omit_password u"
      by (auto simp: getProfile_def split: option.splits)
    from findUnique_id_Some [OF f] v show "\<exists>u \<in> set (users s). v = omit_password u"
      by blast
  qed
  have flds: "omit_password (u\<lparr>password := h\<rparr>) = omit_password u
   \<and> user_id (omit_password u) = user_id u \<and> email (omit_password u) = email u
   \<and> firstName (omit_password u) = firstName u \<and> lastName (omit_password u) = lastName u
   \<and> phone (omit_password u) = phone u \<and> role (omit_password u) = role u
   \<and> emailVerified (omit_password u) = emailVerified u
   \<and> createdAt (omit_password u) = createdAt u \<and> updatedAt (omit_password u) = updatedAt u"
    by (simp add: omit_password_def)
  show ?thesis
    by (rule conjI [OF reg conjI [OF log conjI [OF prof conjI [OF refr flds]]]])
qed

text \<open>
  Ann's registration and her profile.
\<close>

theorem returned_user_omits_password_witness:
  "(\<exists>u \<in> set (users ann_state). \<lparr>user = omit_password ann_row, tokens = ann_tokens\<rparr> =
        \<lparr>user = omit_password u,
         tokens = generateTokens demo_lib demo_config 0 (payload_of (omit_password u))\<rparr>)
   \<and> (\<exists>u \<in> set (users ann_state). omit_password ann_row = omit_password u)
   \<and> getProfile ''u1'' ann_state = Some (omit_password ann_row)
   \<and> omit_password (ann_row\<lparr>password := ''x''\<rparr>) = omit_password ann_row
   \<and> email (omit_password ann_row) = ''ann@x.org''"
proof -
  have prof: "getProfile ''u1'' ann_state = Some (omit_password ann_row)"
    by (simp add: getProfile_def findUnique_id_def ann_users) (simp add: ann_row_def)
  note t1 = returned_user_omits_password [where L = demo_lib and C = demo_config and salt = "''ab''"
      and g = demo_generated and now = 0 and data = ann and s = empty_state and ?s1.0 = ann_state
      and r = "\<lparr>user = omit_password ann_row, tokens = ann_tokens\<rparr>"]
  note t2 = returned_user_omits_password [where s = ann_state and i = "''u1''"
      and v = "omit_password ann_row" and u = ann_row and h = "''x''"]
  from t1 [THEN conjunct1, THEN mp, OF ann_register]
  have 1: "\<exists>u \<in> set (users ann_state). \<lparr>user = omit_password ann_row, tokens = ann_tokens\<rparr> =
        \<lparr>user = omit_password u,
         tokens = generateTokens demo_lib demo_config 0 (payload_of (omit_password u))\<rparr>" .
  from t2 [THEN conjunct2, THEN conjunct2, THEN conjunct1, THEN mp, OF prof]
  have 2: "\<exists>u \<in> set (users ann_state). omit_password ann_row = omit_password u" .
  from t2 [THEN conjunct2, THEN conjunct2, THEN conjunct2, THEN conjunct2]
  have 3: "omit_password (ann_row\<lparr>password := ''x''\<rparr>) = omit_password ann_row"
    and 4: "email (omit_password ann_row) = email ann_row"
    by blast+
  from 1 2 3 4 prof show ?thesis
    by (simp add: ann_row_def)
qed

end
